theory Spec2Isabelle
  imports Complex_Main
begin

section \<open>JavaScript strings\<close>

text \<open>
  A JavaScript string is a sequence of UTF-16 code units. The model uses \<open>string\<close>
  (\<open>char list\<close>) and reads each \<open>char\<close> as the code unit with the same number, so it
  covers the strings whose code units are below 256. \<open>length\<close> is \<open>String.length\<close>.
\<close>

text \<open>
  White space as \<open>String.prototype.trim\<close> and the regular expression class \<open>\s\<close> see
  it: TAB, LF, VT, FF, CR, SPACE and NO-BREAK SPACE are the code units below 256 that
  ECMAScript counts as white space or line terminators.
\<close>

definition isWhiteSpace :: "char \<Rightarrow> bool" where
  "isWhiteSpace c \<longleftrightarrow>
     c = CHR 0x09 \<or> c = CHR 0x0A \<or> c = CHR 0x0B \<or> c = CHR 0x0C \<or> c = CHR 0x0D \<or>
     c = CHR 0x20 \<or> c = CHR 0xA0"

text \<open>\<open>s.trim()\<close>: white space removed from both ends.\<close>

definition trim :: "string \<Rightarrow> string" where
  "trim s = rev (dropWhile isWhiteSpace (rev (dropWhile isWhiteSpace s)))"

text \<open>
  \<open>s.split(sep)\<close> for a separator of one character: the pieces between the separators,
  in order; the empty string gives one empty piece.
\<close>

fun split_on :: "char \<Rightarrow> string \<Rightarrow> string list" where
  "split_on sep [] = [[]]"
| "split_on sep (c # cs) =
     (if c = sep then [] # split_on sep cs
      else (case split_on sep cs of
              [] \<Rightarrow> [[c]]
            | p # ps \<Rightarrow> (c # p) # ps))"

text \<open>\<open>s.startsWith(p)\<close>.\<close>

definition startsWith :: "string \<Rightarrow> string \<Rightarrow> bool" where
  "startsWith s p \<longleftrightarrow> take (length p) s = p"

text \<open>
  Letter case. \<open>toUpperCase\<close>, \<open>toLowerCase\<close> and the \<open>i\<close> flag of a regular
  expression map the letters \<open>a\<close>..\<open>z\<close> and \<open>A\<close>..\<open>Z\<close> to each other. No code unit
  outside ASCII is ever matched with an ASCII letter by the \<open>i\<close> flag (the Canonicalize
  step of ECMAScript refuses it). \<open>toUpperCase\<close> and \<open>toLowerCase\<close> also move letters
  outside ASCII, never to or from an ASCII code unit, but for \<open>0xDF\<close> whose upper case
  is \<open>SS\<close>. The model maps the ASCII letters and \<open>0xDF\<close> and leaves every other code
  unit as it is: the program compares an upper-cased string with ASCII words only, and
  deletes every code unit outside ASCII from a lower-cased one.
\<close>

definition asciiLower :: string where
  "asciiLower = ''abcdefghijklmnopqrstuvwxyz''"

definition asciiUpper :: string where
  "asciiUpper = ''ABCDEFGHIJKLMNOPQRSTUVWXYZ''"

definition asciiDigits :: string where
  "asciiDigits = ''0123456789''"

definition isLowerAscii :: "char \<Rightarrow> bool" where
  "isLowerAscii c \<longleftrightarrow> c \<in> set asciiLower"

definition isUpperAscii :: "char \<Rightarrow> bool" where
  "isUpperAscii c \<longleftrightarrow> c \<in> set asciiUpper"

definition isDigit :: "char \<Rightarrow> bool" where
  "isDigit c \<longleftrightarrow> c \<in> set asciiDigits"

definition upperAscii :: "char \<Rightarrow> char" where
  "upperAscii c = (case map_of (zip asciiLower asciiUpper) c of Some u \<Rightarrow> u | None \<Rightarrow> c)"

definition lowerAscii :: "char \<Rightarrow> char" where
  "lowerAscii c = (case map_of (zip asciiUpper asciiLower) c of Some l \<Rightarrow> l | None \<Rightarrow> c)"

definition toUpperCase :: "string \<Rightarrow> string" where
  "toUpperCase s = concat (map (\<lambda>c. if c = CHR 0xDF then ''SS'' else [upperAscii c]) s)"

definition toLowerCase :: "string \<Rightarrow> string" where
  "toLowerCase s = map lowerAscii s"

text \<open>\<open>n.toString()\<close> for a non-negative integer: its decimal digits.\<close>

fun toString :: "nat \<Rightarrow> string" where
  "toString n =
     (if n < 10 then [asciiDigits ! n]
      else toString (n div 10) @ [asciiDigits ! (n mod 10)])"

declare toString.simps [simp del]

section \<open>Calls that may throw\<close>

text \<open>
  What a call of the platform can do: return, or throw. A thrown value is an \<open>Error\<close>
  instance with its \<open>name\<close> and \<open>message\<close>, or some other value, whose \<open>name\<close> and
  \<open>message\<close> read as \<open>undefined\<close>.
\<close>

datatype thrown = ErrorObj string string | NonError

datatype 'a outcome = Throws thrown | Returns 'a

fun thrown_name :: "thrown \<Rightarrow> string option" where
  "thrown_name (ErrorObj n m) = Some n"
| "thrown_name NonError = None"

fun thrown_message :: "thrown \<Rightarrow> string option" where
  "thrown_message (ErrorObj n m) = Some m"
| "thrown_message NonError = None"

section \<open>QR templates (QRGenerator.tsx)\<close>

record QRTemplate =
  t_id :: string
  t_name :: string
  t_placeholder :: string
  t_format :: "string \<Rightarrow> string"

definition format_text :: "string \<Rightarrow> string" where
  "format_text v = v"

definition format_url :: "string \<Rightarrow> string" where
  "format_url v = (if startsWith v ''http'' then v else ''https://'' @ v)"

text \<open>
  The wifi template. \<open>parts[0]\<close>, \<open>parts[1]\<close>, \<open>parts[2]\<close> are read only when
  \<open>parts.length >= 3\<close>, so the list pattern below is the whole of the first branch.
\<close>

definition format_wifi :: "string \<Rightarrow> string" where
  "format_wifi v =
     (case split_on CHR '','' v of
        p0 # p1 # p2 # rest \<Rightarrow> ''WIFI:T:'' @ p2 @ '';S:'' @ p0 @ '';P:'' @ p1 @ '';;''
      | _ \<Rightarrow> v)"

definition format_contact :: "string \<Rightarrow> string" where
  "format_contact v =
     (case split_on CHR '','' v of
        p0 # p1 # p2 # rest \<Rightarrow>
          ''BEGIN:VCARD'' @ [CHR 0x0A] @ ''VERSION:3.0'' @ [CHR 0x0A] @
          ''FN:'' @ p0 @ [CHR 0x0A] @ ''TEL:'' @ p1 @ [CHR 0x0A] @
          ''EMAIL:'' @ p2 @ [CHR 0x0A] @ ''END:VCARD''
      | _ \<Rightarrow> v)"

definition format_email :: "string \<Rightarrow> string" where
  "format_email v = ''mailto:'' @ v"

definition format_phone :: "string \<Rightarrow> string" where
  "format_phone v = ''tel:'' @ v"

definition qrTemplates :: "QRTemplate list" where
  "qrTemplates =
     [\<lparr>t_id = ''text'', t_name = ''Text'', t_placeholder = ''Enter any text...'',
        t_format = format_text\<rparr>,
      \<lparr>t_id = ''url'', t_name = ''Website'', t_placeholder = ''https://example.com'',
        t_format = format_url\<rparr>,
      \<lparr>t_id = ''wifi'', t_name = ''WiFi'', t_placeholder = ''NetworkName,Password,WPA'',
        t_format = format_wifi\<rparr>,
      \<lparr>t_id = ''contact'', t_name = ''Contact'', t_placeholder = ''Name,Phone,Email'',
        t_format = format_contact\<rparr>,
      \<lparr>t_id = ''email'', t_name = ''Email'', t_placeholder = ''email@example.com'',
        t_format = format_email\<rparr>,
      \<lparr>t_id = ''phone'', t_name = ''Phone'', t_placeholder = ''+1234567890'',
        t_format = format_phone\<rparr>]"

text \<open>
  \<open>format(id, value)\<close>: the template of that id, applied. The component keeps the
  selected template itself; the lookup by id is how the specification names it.
  \<open>None\<close> when no template has the id.
\<close>

definition format :: "string \<Rightarrow> string \<Rightarrow> string option" where
  "format tid v = map_option (\<lambda>t. t_format t v) (find (\<lambda>t. t_id t = tid) qrTemplates)"

section \<open>History (QRGenerator.tsx)\<close>

record QRHistory =
  h_id :: string
  h_content :: string
  h_template :: string
  h_timestamp :: nat
  h_qrDataUrl :: string

text \<open>
  The part of the component's state that \<open>saveToHistory\<close> reads and writes: the
  \<open>qrHistory\<close> state variable, the selected template, and the entry of \<open>localStorage\<close>
  under the key \<open>qrHistory\<close> (the JSON text is modelled by the list it encodes).
\<close>

record generator_state =
  qrHistory :: "QRHistory list"
  selectedTemplate :: QRTemplate
  stored_qrHistory :: "QRHistory list option"

text \<open>
  \<open>saveToHistory(content, qrDataUrl)\<close>. \<open>Date.now()\<close> is read twice, for the id
  (\<open>now_id\<close>) and for the timestamp (\<open>now_ts\<close>). \<open>qrHistory.slice(0, 9)\<close> is \<open>take 9\<close>.
  \<open>setItem\<close> is what \<open>localStorage.setItem\<close> does at this call: it returns, or throws
  (a full store). \<open>setQrHistory\<close> has run by then, so the state variable is updated
  either way; the function has no handler, so what \<open>setItem\<close> throws leaves it.
\<close>

definition saveToHistory ::
  "nat \<Rightarrow> nat \<Rightarrow> unit outcome \<Rightarrow> string \<Rightarrow> string \<Rightarrow> generator_state
     \<Rightarrow> unit outcome \<times> generator_state" where
  "saveToHistory now_id now_ts setItem content qrDataUrl st =
     (let newEntry = \<lparr>h_id = toString now_id, h_content = content,
                       h_template = t_name (selectedTemplate st),
                       h_timestamp = now_ts, h_qrDataUrl = qrDataUrl\<rparr>;
          updated = newEntry # take 9 (qrHistory st)
      in case setItem of
           Returns u \<Rightarrow>
             (Returns (), st\<lparr>qrHistory := updated, stored_qrHistory := Some updated\<rparr>)
         | Throws x \<Rightarrow> (Throws x, st\<lparr>qrHistory := updated\<rparr>))"

section \<open>Retry (validation.ts)\<close>

text \<open>
  \<open>withRetry(operation, maxRetries, delay)\<close>. The operation is a call with effects:
  it takes the state of the world and returns either the value it resolves with
  (\<open>Inr\<close>) or the error it rejects with (\<open>Inl\<close>), and the next state. The result of
  \<open>withRetry\<close> is what it returns or throws, the list of the \<open>setTimeout\<close> delays it
  waited for, in order, and the last state. \<open>lastError\<close> starts as \<open>undefined\<close>
  (\<open>None\<close>), which is what is thrown when the loop body never runs. \<open>maxRetries\<close>
  and \<open>delay\<close> are taken to be integers; \<open>Math.pow(2, attempt - 1)\<close> is a power of
  two with an exponent that is not negative, since \<open>attempt\<close> starts at \<open>1\<close>.
\<close>

function withRetry_loop ::
  "('s \<Rightarrow> ('e + 'a) \<times> 's) \<Rightarrow> int \<Rightarrow> int \<Rightarrow> int \<Rightarrow> 'e option \<Rightarrow> int list \<Rightarrow> 's
     \<Rightarrow> ('e option + 'a) \<times> int list \<times> 's" where
  "withRetry_loop operation maxRetries delay attempt lastError waits s =
     (if attempt \<le> maxRetries then
        (let r = operation s in
         case fst r of
           Inr v \<Rightarrow> (Inr v, waits, snd r)
         | Inl err \<Rightarrow>
             if attempt = maxRetries then (Inl (Some err), waits, snd r)
             else withRetry_loop operation maxRetries delay (attempt + 1) (Some err)
                    (waits @ [delay * 2 ^ nat (attempt - 1)]) (snd r))
      else (Inl lastError, waits, s))"
  by pat_completeness auto
termination
  by (relation "measure (\<lambda>(operation, maxRetries, delay, attempt, lastError, waits, s).
                  nat (maxRetries + 1 - attempt))") auto

definition withRetry ::
  "('s \<Rightarrow> ('e + 'a) \<times> 's) \<Rightarrow> int \<Rightarrow> int \<Rightarrow> 's \<Rightarrow> ('e option + 'a) \<times> int list \<times> 's" where
  "withRetry operation maxRetries delay s =
     withRetry_loop operation maxRetries delay 1 None [] s"

section \<open>Regular expressions\<close>

text \<open>
  The regular expressions of the program that are anchored at both ends (\<open>^...$\<close>)
  are terms of \<open>rx\<close>; \<open>rx_test r s\<close> is \<open>r.test(s)\<close> for such an expression: whether
  the whole of \<open>s\<close> is in the language of \<open>r\<close>, decided by derivatives.
\<close>

datatype rx =
    Nul
  | Eps
  | Cls "char \<Rightarrow> bool"
  | Seq rx rx
  | Alt rx rx
  | Star rx

fun nullable :: "rx \<Rightarrow> bool" where
  "nullable Nul = False"
| "nullable Eps = True"
| "nullable (Cls P) = False"
| "nullable (Seq r1 r2) = (nullable r1 \<and> nullable r2)"
| "nullable (Alt r1 r2) = (nullable r1 \<or> nullable r2)"
| "nullable (Star r) = True"

fun deriv :: "char \<Rightarrow> rx \<Rightarrow> rx" where
  "deriv c Nul = Nul"
| "deriv c Eps = Nul"
| "deriv c (Cls P) = (if P c then Eps else Nul)"
| "deriv c (Seq r1 r2) =
     (if nullable r1 then Alt (Seq (deriv c r1) r2) (deriv c r2)
      else Seq (deriv c r1) r2)"
| "deriv c (Alt r1 r2) = Alt (deriv c r1) (deriv c r2)"
| "deriv c (Star r) = Seq (deriv c r) (Star r)"

fun rx_test :: "rx \<Rightarrow> string \<Rightarrow> bool" where
  "rx_test r [] = nullable r"
| "rx_test r (c # cs) = rx_test (deriv c r) cs"

text \<open>\<open>r+\<close>, \<open>r?\<close> and \<open>r{n,}\<close>.\<close>

definition Plus :: "rx \<Rightarrow> rx" where
  "Plus r = Seq r (Star r)"

definition Opt :: "rx \<Rightarrow> rx" where
  "Opt r = Alt r Eps"

fun AtLeast :: "nat \<Rightarrow> rx \<Rightarrow> rx" where
  "AtLeast 0 r = Star r"
| "AtLeast (Suc n) r = Seq r (AtLeast n r)"

text \<open>
  \<open>s.replace(/p/gi, '')\<close> for a pattern \<open>p\<close> of literal ASCII characters: every match
  is deleted, the matches being found from left to right, each search starting where
  the last match ended. \<open>matches_ci p s\<close>: \<open>p\<close> matches at the start of \<open>s\<close>, letter
  case ignored.
\<close>

definition matches_ci :: "string \<Rightarrow> string \<Rightarrow> bool" where
  "matches_ci p s \<longleftrightarrow>
     length p \<le> length s \<and> map upperAscii (take (length p) s) = map upperAscii p"

fun remove_ci :: "string \<Rightarrow> string \<Rightarrow> string" where
  "remove_ci p [] = []"
| "remove_ci p (c # cs) =
     (if p \<noteq> [] \<and> matches_ci p (c # cs) then remove_ci p (drop (length p) (c # cs))
      else c # remove_ci p cs)"

text \<open>
  \<open>contains_ci p s\<close>: \<open>p\<close> matches somewhere in \<open>s\<close>, letter case ignored; this is
  \<open>/p/i.test(s)\<close> for a pattern of literal ASCII characters.
\<close>

fun contains_ci :: "string \<Rightarrow> string \<Rightarrow> bool" where
  "contains_ci p [] = matches_ci p []"
| "contains_ci p (c # cs) = (matches_ci p (c # cs) \<or> contains_ci p cs)"

section \<open>Sanitizers (validation.ts)\<close>

definition sanitize_text :: "string \<Rightarrow> string" where
  "sanitize_text input =
     trim (remove_ci ''data:'' (remove_ci ''javascript:''
       (filter (\<lambda>c. c \<noteq> CHR ''<'' \<and> c \<noteq> CHR ''>'') input)))"

text \<open>
  \<open>new URL(s)\<close> is the platform's URL parser, not code of this repository: it is the
  parameter \<open>parseURL\<close>, which gives the serialised URL (\<open>url.toString()\<close>) or \<open>None\<close>
  when the constructor throws.
\<close>

definition isAsciiAlnum :: "char \<Rightarrow> bool" where
  "isAsciiAlnum c \<longleftrightarrow> isLowerAscii c \<or> isUpperAscii c \<or> isDigit c"

definition sanitize_url :: "(string \<Rightarrow> string option) \<Rightarrow> string \<Rightarrow> string" where
  "sanitize_url parseURL input =
     (case parseURL (if startsWith input ''http'' then input else ''https://'' @ input) of
        Some href \<Rightarrow> href
      | None \<Rightarrow> filter (\<lambda>c. isAsciiAlnum c \<or> c \<in> set '':/?._-'') input)"

definition sanitize_email :: "string \<Rightarrow> string" where
  "sanitize_email input =
     filter (\<lambda>c. isAsciiAlnum c \<or> c \<in> set ''@._-'') (trim (toLowerCase input))"

definition isPhoneChar :: "char \<Rightarrow> bool" where
  "isPhoneChar c \<longleftrightarrow> isDigit c \<or> isWhiteSpace c \<or> c \<in> set ''-().''"

definition sanitize_phone :: "string \<Rightarrow> string" where
  "sanitize_phone input = trim (filter (\<lambda>c. c = CHR ''+'' \<or> isPhoneChar c) input)"

definition sanitize_wifi :: "string \<Rightarrow> string" where
  "sanitize_wifi input = trim (filter (\<lambda>c. c \<noteq> CHR '';'' \<and> c \<noteq> CHR 0x22) input)"

definition sanitize_contact :: "string \<Rightarrow> string" where
  "sanitize_contact input = trim (filter (\<lambda>c. c \<noteq> CHR '';'' \<and> c \<noteq> CHR 0x22) input)"

section \<open>Validators (validation.ts)\<close>

text \<open>An optional property that is absent (\<open>undefined\<close>) is \<open>None\<close>.\<close>

record ValidationResult =
  isValid :: bool
  error :: "string option"
  sanitizedValue :: "string option"

text \<open>
  \<open>pattern\<close> is used through \<open>pattern.test\<close> only and is modelled by that function.
  The two lengths are JavaScript numbers, taken to be integers; they are tested for
  truthiness before they are compared, so \<open>0\<close> is skipped like \<open>undefined\<close>.
\<close>

record ValidationOptions =
  maxLength :: "int option"
  minLength :: "int option"
  required :: "bool option"
  pattern :: "(string \<Rightarrow> bool) option"
  customValidator :: "(string \<Rightarrow> ValidationResult) option"

definition no_options :: ValidationOptions where
  "no_options = \<lparr>maxLength = None, minLength = None, required = None, pattern = None,
                  customValidator = None\<rparr>"

text \<open>The two shapes of result the validators build.\<close>

definition invalid :: "string \<Rightarrow> ValidationResult" where
  "invalid msg = \<lparr>isValid = False, error = Some msg, sanitizedValue = None\<rparr>"

definition valid :: "string \<Rightarrow> ValidationResult" where
  "valid sanitized = \<lparr>isValid = True, error = None, sanitizedValue = Some sanitized\<rparr>"

definition toString_int :: "int \<Rightarrow> string" where
  "toString_int i = (if i < 0 then ''-'' @ toString (nat (- i)) else toString (nat i))"

definition truthy :: "int option \<Rightarrow> bool" where
  "truthy m \<longleftrightarrow> (case m of None \<Rightarrow> False | Some n \<Rightarrow> n \<noteq> 0)"

definition validate_text :: "string \<Rightarrow> ValidationOptions \<Rightarrow> ValidationResult" where
  "validate_text input options =
     (let sanitized = sanitize_text input in
      if required options = Some True \<and> sanitized = [] then
        invalid ''This field is required''
      else if truthy (minLength options) \<and> int (length sanitized) < the (minLength options) then
        invalid (''Minimum length is '' @ toString_int (the (minLength options)) @ '' characters'')
      else if truthy (maxLength options) \<and> int (length sanitized) > the (maxLength options) then
        invalid (''Maximum length is '' @ toString_int (the (maxLength options)) @ '' characters'')
      else if (case pattern options of None \<Rightarrow> False | Some test \<Rightarrow> \<not> test sanitized) then
        invalid ''Invalid format''
      else (case customValidator options of
              Some cv \<Rightarrow> cv sanitized
            | None \<Rightarrow> valid sanitized))"

definition validate_url :: "(string \<Rightarrow> string option) \<Rightarrow> string \<Rightarrow> ValidationResult" where
  "validate_url parseURL input =
     (let sanitized = sanitize_url parseURL input in
      case parseURL sanitized of
        Some href \<Rightarrow> valid sanitized
      | None \<Rightarrow> invalid ''Invalid URL format'')"

text \<open>\<open>/^[^\s@]+@[^\s@]+\.[^\s@]+$/\<close>\<close>

definition emailRegex :: rx where
  "emailRegex =
     (let other = Cls (\<lambda>c. \<not> isWhiteSpace c \<and> c \<noteq> CHR ''@'') in
      Seq (Plus other) (Seq (Cls (\<lambda>c. c = CHR ''@''))
        (Seq (Plus other) (Seq (Cls (\<lambda>c. c = CHR ''.'')) (Plus other)))))"

definition validate_email :: "string \<Rightarrow> ValidationResult" where
  "validate_email input =
     (let sanitized = sanitize_email input in
      if \<not> rx_test emailRegex sanitized then invalid ''Invalid email format''
      else valid sanitized)"

text \<open>\<open>/^[\+]?[\d\s\-\(\)\.]{7,}$/\<close>\<close>

definition phoneRegex :: rx where
  "phoneRegex = Seq (Opt (Cls (\<lambda>c. c = CHR ''+''))) (AtLeast 7 (Cls isPhoneChar))"

definition validate_phone :: "string \<Rightarrow> ValidationResult" where
  "validate_phone input =
     (let sanitized = sanitize_phone input in
      if \<not> rx_test phoneRegex sanitized then invalid ''Invalid phone number format''
      else valid sanitized)"

definition validSecurity :: "string list" where
  "validSecurity = [''WPA'', ''WPA2'', ''WPA3'', ''WEP'', ''NONE'']"

text \<open>
  The destructuring \<open>[ssid, password, security] = parts.map(p => p.trim())\<close> is reached
  with \<open>parts.length >= 3\<close> only, so the three reads are in range.
\<close>

definition validate_wifi :: "string \<Rightarrow> ValidationResult" where
  "validate_wifi input =
     (let sanitized = sanitize_wifi input;
          parts = split_on CHR '','' sanitized
      in if length parts < 3 then
           invalid ''Please provide: NetworkName,Password,SecurityType''
         else
           (let ssid = map trim parts ! 0;
                password = map trim parts ! 1;
                security = map trim parts ! 2
            in if ssid = [] then invalid ''Network name is required''
               else if password = [] then invalid ''Password is required''
               else if toUpperCase security \<notin> set validSecurity then
                 invalid ''Security type must be: WPA, WPA2, WPA3, WEP, or NONE''
               else valid sanitized))"

text \<open>\<open>${r.error}\<close> in a template literal: the text, or \<open>undefined\<close> when absent.\<close>

definition error_text :: "ValidationResult \<Rightarrow> string" where
  "error_text r = (case error r of Some e \<Rightarrow> e | None \<Rightarrow> ''undefined'')"

definition validate_contact :: "string \<Rightarrow> ValidationResult" where
  "validate_contact input =
     (let sanitized = sanitize_contact input;
          parts = split_on CHR '','' sanitized
      in if length parts < 3 then invalid ''Please provide: Name,Phone,Email''
         else
           (let name = map trim parts ! 0;
                phone = map trim parts ! 1;
                email = map trim parts ! 2
            in if name = [] then invalid ''Name is required''
               else if phone \<noteq> [] \<and> \<not> isValid (validate_phone phone) then
                 invalid (''Invalid phone: '' @ error_text (validate_phone phone))
               else if email \<noteq> [] \<and> \<not> isValid (validate_email email) then
                 invalid (''Invalid email: '' @ error_text (validate_email email))
               else valid sanitized))"

section \<open>The generator with validation (second listing in DiagnosticModule.tsx)\<close>

text \<open>
  The file \<open>DiagnosticModule.tsx\<close> holds, after the diagnostic module, the generator
  component that imports the validators. Its \<open>debouncedValidate\<close> sets the state
  variable \<open>validationError\<close> (\<open>None\<close> is \<open>null\<close>) from the text typed so far;
  \<open>customValidator\<close> below is the function it passes to \<open>validate.text\<close>.
\<close>

definition templateValidator ::
  "(string \<Rightarrow> string option) \<Rightarrow> QRTemplate \<Rightarrow> string \<Rightarrow> ValidationResult" where
  "templateValidator parseURL tmpl val =
     (if t_id tmpl = ''url'' then validate_url parseURL val
      else if t_id tmpl = ''email'' then validate_email val
      else if t_id tmpl = ''phone'' then validate_phone val
      else if t_id tmpl = ''wifi'' then validate_wifi val
      else if t_id tmpl = ''contact'' then validate_contact val
      else validate_text val (no_options\<lparr>maxLength := Some 2000\<rparr>))"

definition debouncedValidate ::
  "(string \<Rightarrow> string option) \<Rightarrow> QRTemplate \<Rightarrow> string \<Rightarrow> string option" where
  "debouncedValidate parseURL tmpl val =
     (if trim val = [] then None
      else
        (let validation = validate_text val
               (no_options\<lparr>maxLength := Some 2000,
                            customValidator := Some (templateValidator parseURL tmpl)\<rparr>)
         in if isValid validation then None
            else (case error validation of
                    Some e \<Rightarrow> Some (if e = [] then ''Invalid input'' else e)
                  | None \<Rightarrow> Some ''Invalid input'')))"

text \<open>
  \<open>generateQR\<close> up to the text it hands to the QR encoder: the toast it stops with
  (\<open>Inl\<close>), or \<open>formattedContent\<close> (\<open>Inr\<close>). It formats the trimmed text of the input
  field; no \<open>sanitizedValue\<close> is read anywhere in the program.
\<close>

definition generateQR_content :: "QRTemplate \<Rightarrow> string option \<Rightarrow> string \<Rightarrow> string + string" where
  "generateQR_content tmpl validationError txt =
     (let trimmedText = trim txt in
      if trimmedText = [] then Inl ''Please enter some content to generate a QR code''
      else if validationError \<noteq> None \<and> validationError \<noteq> Some [] then
        Inl (the validationError)
      else Inr (t_format tmpl trimmedText))"

section \<open>Diagnostics (DiagnosticModule.tsx)\<close>

datatype status = pending | passed | failed | skipped

record DiagnosticResult =
  name :: string
  status :: status
  message :: string
  details :: "string option"

datatype media = video | audio

text \<open>
  The browser as one run of the checks observes it. Each field is what the call of
  that name does when a check makes it:
  \<^item> \<open>rtcPeerConnection\<close>: \<open>new RTCPeerConnection()\<close> and \<open>close()\<close>;
  \<^item> \<open>getContext kind\<close>: a fresh canvas and \<open>getContext(kind)\<close>, \<open>True\<close> for a context;
  \<^item> \<open>audioContext\<close>: \<open>None\<close> when neither constructor is defined, else \<open>new\<close> and \<open>close()\<close>;
  \<^item> \<open>mediaDevices\<close>: \<open>navigator.mediaDevices\<close> and its \<open>getUserMedia\<close> are there;
  \<^item> \<open>getUserMedia m\<close>: the request for that medium, and stopping its tracks;
  \<^item> \<open>timingVariance\<close>: the difference of the two \<open>performance.now()\<close> readings;
  \<^item> \<open>hardwareConcurrency\<close>: the number, \<open>0\<close> when the property is absent;
  \<^item> \<open>userAgent\<close>: the string \<open>navigator.userAgent\<close>; \<open>Throws\<close> when it is not a
    string, which is what the call of \<open>toLowerCase\<close> on it then does.
\<close>

record env =
  rtcPeerConnection :: "unit outcome"
  getContext :: "string \<Rightarrow> bool outcome"
  serviceWorker_in_navigator :: bool
  indexedDB_in_window :: bool
  audioContext :: "unit outcome option"
  mediaDevices :: bool
  getUserMedia :: "media \<Rightarrow> unit outcome"
  notification_in_window :: bool
  notification_permission :: string
  requestPermission :: "string outcome"
  timingVariance :: real
  mouseMoved :: bool
  hardwareConcurrency :: nat
  userAgent :: "string outcome"

definition result :: "string \<Rightarrow> status \<Rightarrow> string \<Rightarrow> DiagnosticResult" where
  "result n s m = \<lparr>name = n, status = s, message = m, details = None\<rparr>"

definition result_details ::
  "string \<Rightarrow> status \<Rightarrow> string \<Rightarrow> string option \<Rightarrow> DiagnosticResult" where
  "result_details n s m d = \<lparr>name = n, status = s, message = m, details = d\<rparr>"

definition checkWebRTC :: "env \<Rightarrow> DiagnosticResult outcome" where
  "checkWebRTC e =
     (case rtcPeerConnection e of
        Returns u \<Rightarrow> Returns (result ''WebRTC Support'' passed ''WebRTC is supported'')
      | Throws x \<Rightarrow> Returns (result ''WebRTC Support'' failed ''WebRTC not supported''))"

definition checkWebGL :: "env \<Rightarrow> DiagnosticResult outcome" where
  "checkWebGL e =
     (let supported = Returns (result ''WebGL Support'' passed ''WebGL is supported'');
          unsupported = Returns (result ''WebGL Support'' failed ''WebGL not supported'');
          check_failed = Returns (result ''WebGL Support'' failed ''WebGL check failed'')
      in case getContext e ''webgl'' of
           Throws x \<Rightarrow> check_failed
         | Returns True \<Rightarrow> supported
         | Returns False \<Rightarrow>
             (case getContext e ''experimental-webgl'' of
                Throws x \<Rightarrow> check_failed
              | Returns True \<Rightarrow> supported
              | Returns False \<Rightarrow> unsupported))"

definition checkServiceWorkers :: "env \<Rightarrow> DiagnosticResult outcome" where
  "checkServiceWorkers e =
     (if serviceWorker_in_navigator e then
        Returns (result ''Service Workers'' passed ''Service Workers supported'')
      else Returns (result ''Service Workers'' failed ''Service Workers not supported''))"

definition checkIndexedDB :: "env \<Rightarrow> DiagnosticResult outcome" where
  "checkIndexedDB e =
     (if indexedDB_in_window e then
        Returns (result ''IndexedDB Support'' passed ''IndexedDB is supported'')
      else Returns (result ''IndexedDB Support'' failed ''IndexedDB not supported''))"

definition checkAudioContext :: "env \<Rightarrow> DiagnosticResult outcome" where
  "checkAudioContext e =
     (case audioContext e of
        Some (Returns u) \<Rightarrow> Returns (result ''Audio Context'' passed ''Audio Context supported'')
      | None \<Rightarrow> Returns (result ''Audio Context'' failed ''Audio Context not supported'')
      | Some (Throws x) \<Rightarrow>
          Returns (result ''Audio Context'' failed ''Audio Context check failed''))"

definition checkCameraPermissions :: "env \<Rightarrow> DiagnosticResult outcome" where
  "checkCameraPermissions e =
     (if \<not> mediaDevices e then
        Returns (result ''Camera Permissions'' failed ''Camera API not supported'')
      else case getUserMedia e video of
        Returns u \<Rightarrow> Returns (result ''Camera Permissions'' passed ''Camera access granted'')
      | Throws x \<Rightarrow>
          if thrown_name x = Some ''NotAllowedError'' then
            Returns (result_details ''Camera Permissions'' failed ''Camera access denied''
              (Some ''Please allow camera access in your browser settings''))
          else if thrown_name x = Some ''NotFoundError'' then
            Returns (result ''Camera Permissions'' skipped ''No camera detected'')
          else Returns (result_details ''Camera Permissions'' failed ''Camera check failed''
                 (thrown_message x)))"

definition checkMicrophonePermissions :: "env \<Rightarrow> DiagnosticResult outcome" where
  "checkMicrophonePermissions e =
     (if \<not> mediaDevices e then
        Returns (result ''Microphone Permissions'' failed ''Audio API not supported'')
      else case getUserMedia e audio of
        Returns u \<Rightarrow>
          Returns (result ''Microphone Permissions'' passed ''Microphone access granted'')
      | Throws x \<Rightarrow>
          if thrown_name x = Some ''NotAllowedError'' then
            Returns (result_details ''Microphone Permissions'' failed ''Microphone access denied''
              (Some ''Please allow microphone access in your browser settings''))
          else if thrown_name x = Some ''NotFoundError'' then
            Returns (result ''Microphone Permissions'' skipped ''No microphone detected'')
          else Returns (result_details ''Microphone Permissions'' failed
                 ''Microphone check failed'' (thrown_message x)))"

definition checkNotificationPermissions :: "env \<Rightarrow> DiagnosticResult outcome" where
  "checkNotificationPermissions e =
     (if \<not> notification_in_window e then
        Returns (result ''Notification Permissions'' failed ''Notifications not supported'')
      else if notification_permission e = ''granted'' then
        Returns (result ''Notification Permissions'' passed ''Notifications enabled'')
      else if notification_permission e = ''denied'' then
        Returns (result_details ''Notification Permissions'' failed ''Notifications blocked''
          (Some ''Please enable notifications in your browser settings''))
      else case requestPermission e of
        Returns permission \<Rightarrow>
          if permission = ''granted'' then
            Returns (result ''Notification Permissions'' passed ''Notifications enabled'')
          else
            Returns (result_details ''Notification Permissions'' failed ''Notifications denied''
              (Some ''Notifications are required for some features''))
      | Throws x \<Rightarrow>
          Returns (result_details ''Notification Permissions'' failed
            ''Notification check failed'' (thrown_message x)))"

text \<open>
  \<open>/bot|crawl|spider|scraper/i.test(s)\<close>: one of the four words occurs somewhere in
  \<open>s\<close>, letter case ignored.
\<close>

definition isBot :: "string \<Rightarrow> bool" where
  "isBot s \<longleftrightarrow>
     contains_ci ''bot'' s \<or> contains_ci ''crawl'' s \<or> contains_ci ''spider'' s \<or>
     contains_ci ''scraper'' s"

text \<open>
  The five heuristics, in the order they are pushed, for the user agent \<open>ua\<close> read.
  \<open>navigator.hardwareConcurrency || 1\<close> replaces an absent or zero value by \<open>1\<close>.
\<close>

definition botHeuristics :: "env \<Rightarrow> string \<Rightarrow> bool list" where
  "botHeuristics e ua =
     [timingVariance e > 15,
      mouseMoved e,
      (case getContext e ''webgl'' of Returns gl \<Rightarrow> gl | Throws x \<Rightarrow> False),
      (if hardwareConcurrency e = 0 then 1 else hardwareConcurrency e) \<ge> 2,
      \<not> isBot (toLowerCase ua)]"

text \<open>
  \<open>heuristics.filter(Boolean).length / heuristics.length\<close>. The source computes the
  quotient and compares it with \<open>0.7\<close> and \<open>0.4\<close> in binary floating point; division
  and the reading of a decimal literal both round to the nearest double, so the
  quotient of \<open>k\<close> by \<open>5\<close> and the literal for the same fraction are the same double,
  and the comparisons of the six possible scores with the two thresholds come out as
  they do in the rationals.
\<close>

definition humanScore :: "bool list \<Rightarrow> real" where
  "humanScore heuristics = real (length (filter id heuristics)) / real (length heuristics)"

definition botVerdict :: "real \<Rightarrow> DiagnosticResult" where
  "botVerdict score =
     (if score \<ge> 7 / 10 then result ''Bot Detection'' passed ''Human interaction detected''
      else if score \<ge> 4 / 10 then
        result ''Bot Detection'' skipped ''Uncertain detection result''
      else result ''Bot Detection'' failed ''Automated interaction suspected'')"

text \<open>
  Nothing in \<open>checkBotDetection\<close> catches what reading the user agent throws, so that
  leaves the function.
\<close>

definition checkBotDetection :: "env \<Rightarrow> DiagnosticResult outcome" where
  "checkBotDetection e =
     (case userAgent e of
        Throws x \<Rightarrow> Throws x
      | Returns ua \<Rightarrow> Returns (botVerdict (humanScore (botHeuristics e ua))))"

definition checks :: "(string \<times> (env \<Rightarrow> DiagnosticResult outcome)) list" where
  "checks =
     [(''WebRTC Support'', checkWebRTC),
      (''WebGL Support'', checkWebGL),
      (''Service Workers'', checkServiceWorkers),
      (''IndexedDB Support'', checkIndexedDB),
      (''Audio Context'', checkAudioContext),
      (''Camera Permissions'', checkCameraPermissions),
      (''Microphone Permissions'', checkMicrophonePermissions),
      (''Notification Permissions'', checkNotificationPermissions),
      (''Bot Detection'', checkBotDetection)]"

record diag_state =
  results :: "DiagnosticResult list"
  isRunning :: bool
  isComplete :: bool

text \<open>
  One turn of the loop of \<open>runDiagnostics\<close> settles entry \<open>i\<close>:
  \<open>prev.map((r, idx) => idx === i ? x : r)\<close> is \<open>prev[i := x]\<close>, with the check's result
  or, when the check throws, with the \<open>failed\<close> record of the \<open>catch\<close> block.
\<close>

definition settle :: "env \<Rightarrow> string \<times> (env \<Rightarrow> DiagnosticResult outcome) \<Rightarrow> DiagnosticResult" where
  "settle e check =
     (case snd check e of
        Returns r \<Rightarrow> r
      | Throws x \<Rightarrow>
          result_details (fst check) failed ''Check failed''
            (Some (case x of ErrorObj n m \<Rightarrow> m | NonError \<Rightarrow> ''Unknown error'')))"

fun run_checks ::
  "env \<Rightarrow> (string \<times> (env \<Rightarrow> DiagnosticResult outcome)) list \<Rightarrow> nat \<Rightarrow> DiagnosticResult list
     \<Rightarrow> DiagnosticResult list" where
  "run_checks e [] i prev = prev"
| "run_checks e (check # rest) i prev = run_checks e rest (Suc i) (prev[i := settle e check])"

text \<open>
  \<open>runDiagnostics\<close> in its three phases: the state after the two \<open>set\<close> calls that
  precede the loop, the loop, and the two \<open>set\<close> calls that follow it.
\<close>

definition diag_begin :: "diag_state \<Rightarrow> diag_state" where
  "diag_begin st =
     st\<lparr>isRunning := True,
        results := map (\<lambda>check. result (fst check) pending ''Checking...'') checks\<rparr>"

definition diag_loop :: "env \<Rightarrow> diag_state \<Rightarrow> diag_state" where
  "diag_loop e st = st\<lparr>results := run_checks e checks 0 (results st)\<rparr>"

definition diag_end :: "diag_state \<Rightarrow> diag_state" where
  "diag_end st = st\<lparr>isRunning := False, isComplete := True\<rparr>"

definition runDiagnostics :: "env \<Rightarrow> diag_state \<Rightarrow> diag_state" where
  "runDiagnostics e st = diag_end (diag_loop e (diag_begin st))"

text \<open>The counts the component derives from the results when it renders.\<close>

definition countStatus :: "status \<Rightarrow> DiagnosticResult list \<Rightarrow> nat" where
  "countStatus s rs = length (filter (\<lambda>r. status r = s) rs)"

section \<open>Predicates of the properties\<close>

text \<open>
  The invariant of a \<open>ValidationResult\<close>: it is valid exactly when it carries a
  sanitized value (of any length) and no error.
\<close>

definition well_formed :: "ValidationResult \<Rightarrow> bool" where
  "well_formed r \<longleftrightarrow> (isValid r \<longleftrightarrow> sanitizedValue r \<noteq> None \<and> error r = None)"

text \<open>A result in one of the three terminal states.\<close>

definition settled :: "DiagnosticResult \<Rightarrow> bool" where
  "settled r \<longleftrightarrow> status r = passed \<or> status r = failed \<or> status r = skipped"

section \<open>Concrete inputs\<close>

text \<open>A history of ten entries, the newest (\<open>j\<close>) first.\<close>

definition history_entry :: "string \<Rightarrow> QRHistory" where
  "history_entry c = \<lparr>h_id = c, h_content = c, h_template = ''Text'', h_timestamp = 0,
                       h_qrDataUrl = ''data:image/png;base64,''\<rparr>"

definition full_history :: generator_state where
  "full_history =
     \<lparr>qrHistory = map history_entry
        [''j'', ''i'', ''h'', ''g'', ''f'', ''e'', ''d'', ''c'', ''b'', ''a''],
      selectedTemplate = qrTemplates ! 0,
      stored_qrHistory = None\<rparr>"

text \<open>The wifi template, as the component holds it when it is selected.\<close>

definition wifiTemplate :: QRTemplate where
  "wifiTemplate = qrTemplates ! 2"

text \<open>
  A browser in which exactly three of the five heuristics of the bot detection pass:
  the timing and the core count pass, a WebGL context is there, the mouse has not
  moved, and the user agent names a bot.
\<close>

definition botEnv :: env where
  "botEnv =
     \<lparr>rtcPeerConnection = Returns (),
      getContext = (\<lambda>kind. Returns (kind = ''webgl'')),
      serviceWorker_in_navigator = True,
      indexedDB_in_window = False,
      audioContext = None,
      mediaDevices = True,
      getUserMedia = (\<lambda>m. if m = video then Throws (ErrorObj ''NotFoundError'' ''no device'')
                           else Returns ()),
      notification_in_window = True,
      notification_permission = ''default'',
      requestPermission = Returns ''granted'',
      timingVariance = 16,
      mouseMoved = False,
      hardwareConcurrency = 8,
      userAgent = Returns ''Googlebot/2.1''\<rparr>"

definition idle :: diag_state where
  "idle = \<lparr>results = [], isRunning = False, isComplete = False\<rparr>"

text \<open>A URL parser that throws on every input.\<close>

definition rejectURL :: "string \<Rightarrow> string option" where
  "rejectURL s = None"

section \<open>Properties of the template formatter\<close>

lemma length_split_on: "length (split_on sep s) = Suc (length (filter (\<lambda>c. c = sep) s))"
  by (induction s) (auto split: list.splits)

text \<open>
  Claim C8. The wifi template turns \<open>MyNet,pass123,wpa2\<close> into
  \<open>WIFI:T:wpa2;S:MyNet;P:pass123;;\<close>, and an input that splits on the comma into fewer
  than three parts comes back unchanged (the formatter is a total function: it has no
  branch that throws).
\<close>

theorem wifi_format_example_and_fallback:
  "format ''wifi'' ''MyNet,pass123,wpa2'' = Some ''WIFI:T:wpa2;S:MyNet;P:pass123;;'' \<and>
   (length (split_on CHR '','' v) < 3 \<longrightarrow> format_wifi v = v \<and> format ''wifi'' v = Some v)"
proof -
  have ex: "format ''wifi'' ''MyNet,pass123,wpa2'' = Some ''WIFI:T:wpa2;S:MyNet;P:pass123;;''"
    by (simp add: format_def qrTemplates_def format_wifi_def)
  have fb: "format_wifi v = v" if "length (split_on CHR '','' v) < 3"
    using that by (auto simp: format_wifi_def split: list.splits)
  have "format ''wifi'' v = Some (format_wifi v)"
    by (simp add: format_def qrTemplates_def)
  with ex fb show ?thesis by simp
qed

theorem wifi_format_fallback_witness:
  "length (split_on CHR '','' ''MyNet,pass123'') < 3 \<and>
   format_wifi ''MyNet,pass123'' = ''MyNet,pass123'' \<and>
   format ''wifi'' ''MyNet,pass123'' = Some ''MyNet,pass123''"
  using wifi_format_example_and_fallback [of "''MyNet,pass123''"] by simp

section \<open>Properties of the history\<close>

text \<open>
  Claim C4. Saving to a history of ten entries gives a history of ten entries whose
  first entry is the new one and whose last (tenth) entry is the ninth of the history
  before; and whatever the history was, the one after a save has at most ten entries,
  also when the write to the store throws. The stored copy, when the write succeeds, is
  the new history.
\<close>

theorem saveToHistory_bounded:
  "(length (qrHistory st) = 10 \<longrightarrow>
      length (qrHistory (snd (saveToHistory now_id now_ts setItem content qrDataUrl st))) = 10 \<and>
      qrHistory (snd (saveToHistory now_id now_ts setItem content qrDataUrl st)) ! 0 =
        \<lparr>h_id = toString now_id, h_content = content,
         h_template = t_name (selectedTemplate st),
         h_timestamp = now_ts, h_qrDataUrl = qrDataUrl\<rparr> \<and>
      qrHistory (snd (saveToHistory now_id now_ts setItem content qrDataUrl st)) ! 9 =
        qrHistory st ! 8 \<and>
      last (qrHistory (snd (saveToHistory now_id now_ts setItem content qrDataUrl st))) =
        qrHistory st ! 8) \<and>
   length (qrHistory (snd (saveToHistory now_id now_ts setItem content qrDataUrl st))) \<le> 10 \<and>
   (setItem = Returns () \<longrightarrow>
      stored_qrHistory (snd (saveToHistory now_id now_ts setItem content qrDataUrl st)) =
        Some (qrHistory (snd (saveToHistory now_id now_ts setItem content qrDataUrl st))))"
  by (auto simp: saveToHistory_def Let_def last_conv_nth split: outcome.splits)

theorem saveToHistory_bounded_witness:
  "length (qrHistory full_history) = 10 \<and>
   map h_content (qrHistory (snd (saveToHistory 1700000000000 1700000000001 (Returns ())
       ''k'' ''data:,'' full_history))) =
     [''k'', ''j'', ''i'', ''h'', ''g'', ''f'', ''e'', ''d'', ''c'', ''b''] \<and>
   qrHistory (snd (saveToHistory 1700000000000 1700000000001 (Returns ())
       ''k'' ''data:,'' full_history)) ! 0 =
     \<lparr>h_id = ''1700000000000'', h_content = ''k'', h_template = ''Text'',
      h_timestamp = 1700000000001, h_qrDataUrl = ''data:,''\<rparr> \<and>
   last (qrHistory (snd (saveToHistory 1700000000000 1700000000001 (Returns ())
       ''k'' ''data:,'' full_history))) =
     history_entry ''b''"
  using saveToHistory_bounded
    [of full_history 1700000000000 1700000000001 "Returns ()" "''k''" "''data:,''"]
  by (simp add: full_history_def saveToHistory_def qrTemplates_def toString.simps
      asciiDigits_def Let_def history_entry_def)

section \<open>Properties of the retry\<close>

text \<open>
  Claim C3. When the operation fails at its first two calls and succeeds at the third,
  \<open>withRetry\<close> with three attempts and base delay \<open>d\<close> returns the value of the third
  call, after exactly two waits, of \<open>d\<close> and \<open>2 * d\<close>; the state it ends in is the one
  the third call left, so the operation ran three times and nothing was waited for
  after the last attempt.
\<close>

theorem withRetry_third_attempt_succeeds:
  assumes "operation s0 = (Inl e1, s1)" and "operation s1 = (Inl e2, s2)"
    and "operation s2 = (Inr v, s3)"
  shows "withRetry operation 3 d s0 = (Inr v, [d, 2 * d], s3)"
  using assms by (simp add: withRetry_def)

theorem withRetry_third_attempt_succeeds_witness:
  "withRetry (\<lambda>n::nat. (if n < 2 then Inl (''failure'', n) else Inr ''done'', Suc n)) 3 1000 0 =
     (Inr ''done'', [1000, 2000], 3)"
  using withRetry_third_attempt_succeeds
    [of "\<lambda>n::nat. (if n < 2 then Inl (''failure'', n) else Inr ''done'', Suc n)"
        0 "(''failure'', 0)" 1 "(''failure'', 1)" 2 "''done''" 3 1000]
  by (simp add: numeral_2_eq_2 numeral_3_eq_3)

text \<open>
  Claim C7. When the operation fails at each of its three calls, \<open>withRetry\<close> with three
  attempts throws the error of the third call as it is (\<open>Some e3\<close> is the variable
  \<open>lastError\<close> holding \<open>e3\<close>), and so not the error of the first call when the two
  differ.
\<close>

theorem withRetry_exhausted_throws_last:
  assumes "operation s0 = (Inl e1, s1)" and "operation s1 = (Inl e2, s2)"
    and "operation s2 = (Inl e3, s3)"
  shows "withRetry operation 3 d s0 = (Inl (Some e3), [d, 2 * d], s3) \<and>
         (e3 \<noteq> e1 \<longrightarrow> fst (withRetry operation 3 d s0) \<noteq> Inl (Some e1))"
  using assms by (simp add: withRetry_def)

theorem withRetry_exhausted_throws_last_witness:
  "withRetry (\<lambda>n::nat. (Inl (''failure'', n) :: (string \<times> nat) + string, Suc n)) 3 1000 0 =
     (Inl (Some (''failure'', 2)), [1000, 2000], 3) \<and>
   fst (withRetry (\<lambda>n::nat. (Inl (''failure'', n) :: (string \<times> nat) + string, Suc n)) 3 1000 0)
     \<noteq> Inl (Some (''failure'', 0))"
  using withRetry_exhausted_throws_last
    [of "\<lambda>n::nat. (Inl (''failure'', n) :: (string \<times> nat) + string, Suc n)"
        0 "(''failure'', 0)" 1 "(''failure'', 1)" 2 "(''failure'', 2)" 3 1000]
  by (simp add: numeral_2_eq_2 numeral_3_eq_3)

section \<open>Properties of the validators\<close>

lemmas eval_strings =
  trim_def isWhiteSpace_def toUpperCase_def upperAscii_def asciiLower_def asciiUpper_def
  sanitize_wifi_def validSecurity_def

lemmas eval_validate_wifi =
  validate_wifi_def sanitize_wifi_def trim_def isWhiteSpace_def toUpperCase_def upperAscii_def
  asciiLower_def asciiUpper_def validSecurity_def valid_def invalid_def

text \<open>
  Claim C2. When the sanitized input splits on the comma into fewer than three parts,
  \<open>validate.wifi\<close> fails with the message \<open>Please provide:
  NetworkName,Password,SecurityType\<close>. When it splits into at least three parts, the
  trimmed first and second parts are not empty and the trimmed third part in upper
  case is one of \<open>WPA\<close>, \<open>WPA2\<close>, \<open>WPA3\<close>, \<open>WEP\<close>, \<open>NONE\<close>, it succeeds and returns the
  sanitized input.
\<close>

theorem validate_wifi_parts:
  "(length (split_on CHR '','' (sanitize_wifi input)) < 3 \<longrightarrow>
      validate_wifi input =
        \<lparr>isValid = False, error = Some ''Please provide: NetworkName,Password,SecurityType'',
         sanitizedValue = None\<rparr>) \<and>
   (3 \<le> length (split_on CHR '','' (sanitize_wifi input)) \<and>
    trim (split_on CHR '','' (sanitize_wifi input) ! 0) \<noteq> [] \<and>
    trim (split_on CHR '','' (sanitize_wifi input) ! 1) \<noteq> [] \<and>
    toUpperCase (trim (split_on CHR '','' (sanitize_wifi input) ! 2))
      \<in> set [''WPA'', ''WPA2'', ''WPA3'', ''WEP'', ''NONE''] \<longrightarrow>
      validate_wifi input =
        \<lparr>isValid = True, error = None, sanitizedValue = Some (sanitize_wifi input)\<rparr>)"
proof -
  let ?parts = "split_on CHR '','' (sanitize_wifi input)"
  have few: "validate_wifi input = invalid ''Please provide: NetworkName,Password,SecurityType''"
    if "length ?parts < 3"
    using that by (simp add: validate_wifi_def Let_def)
  have ok: "validate_wifi input = valid (sanitize_wifi input)"
    if len: "3 \<le> length ?parts"
      and ssid: "trim (?parts ! 0) \<noteq> []"
      and password: "trim (?parts ! 1) \<noteq> []"
      and security: "toUpperCase (trim (?parts ! 2)) \<in> set validSecurity"
  proof -
    from len have "0 < length ?parts" and "1 < length ?parts" and "2 < length ?parts"
      by linarith+
    then have "map trim ?parts ! 0 = trim (?parts ! 0)"
      and "map trim ?parts ! 1 = trim (?parts ! 1)"
      and "map trim ?parts ! 2 = trim (?parts ! 2)"
      by (simp_all only: nth_map)
    with len ssid password security show ?thesis
      by (simp add: validate_wifi_def Let_def)
  qed
  from few ok show ?thesis
    by (simp add: invalid_def valid_def validSecurity_def)
qed

theorem validate_wifi_parts_witness:
  "length (split_on CHR '','' (sanitize_wifi ''MyNet,pass123'')) < 3 \<and>
   validate_wifi ''MyNet,pass123'' =
     \<lparr>isValid = False, error = Some ''Please provide: NetworkName,Password,SecurityType'',
      sanitizedValue = None\<rparr> \<and>
   3 \<le> length (split_on CHR '','' (sanitize_wifi '' MyNet, pass123 ,wpa2,x '')) \<and>
   toUpperCase (trim (split_on CHR '','' (sanitize_wifi '' MyNet, pass123 ,wpa2,x '') ! 2)) = ''WPA2'' \<and>
   validate_wifi '' MyNet, pass123 ,wpa2,x '' =
     \<lparr>isValid = True, error = None, sanitizedValue = Some ''MyNet, pass123 ,wpa2,x''\<rparr>"
  using validate_wifi_parts [of "''MyNet,pass123''"]
    validate_wifi_parts [of "'' MyNet, pass123 ,wpa2,x ''"]
  by (simp add: eval_strings)

text \<open>
  The parts are those of the sanitized input. Those of the raw input can differ: in
  \<open>;,pw,WPA\<close> the first part is \<open>;\<close>, which the sanitizer deletes, and the network
  name the validator sees is empty.
\<close>

lemma validate_wifi_sanitized_parts_example:
  "validate_wifi '';,pw,WPA'' = invalid ''Network name is required''"
  by (simp add: eval_validate_wifi)

lemma well_formed_invalid: "well_formed (invalid msg)"
  by (simp add: well_formed_def invalid_def)

lemma well_formed_valid: "well_formed (valid s)"
  by (simp add: well_formed_def valid_def)

lemma well_formed_validate_url: "well_formed (validate_url parseURL input)"
  by (simp add: validate_url_def Let_def well_formed_invalid well_formed_valid split: option.splits)

lemma well_formed_validate_email: "well_formed (validate_email input)"
  by (simp add: validate_email_def Let_def well_formed_invalid well_formed_valid)

lemma well_formed_validate_phone: "well_formed (validate_phone input)"
  by (simp add: validate_phone_def Let_def well_formed_invalid well_formed_valid)

lemma well_formed_validate_wifi: "well_formed (validate_wifi input)"
  by (simp add: validate_wifi_def Let_def well_formed_invalid well_formed_valid)

lemma well_formed_validate_contact: "well_formed (validate_contact input)"
  by (simp add: validate_contact_def Let_def well_formed_invalid well_formed_valid)

lemma well_formed_validate_text:
  assumes "\<And>cv v. customValidator options = Some cv \<Longrightarrow> well_formed (cv v)"
  shows "well_formed (validate_text input options)"
  using assms
  by (simp add: validate_text_def Let_def well_formed_invalid well_formed_valid
      split: option.splits)

text \<open>
  Claim C9. Each of the six validators returns a result that is valid exactly when it
  carries a sanitized value and no error; for \<open>validate.text\<close> this is under the
  hypothesis that the custom validator of the options, when there is one, returns
  such results.
\<close>

theorem validators_well_formed:
  "((\<forall>cv v. customValidator options = Some cv \<longrightarrow> well_formed (cv v)) \<longrightarrow>
      well_formed (validate_text input options)) \<and>
   well_formed (validate_url parseURL input) \<and>
   well_formed (validate_email input) \<and>
   well_formed (validate_phone input) \<and>
   well_formed (validate_wifi input) \<and>
   well_formed (validate_contact input)"
  using well_formed_validate_text [of options input]
  by (simp add: well_formed_validate_url well_formed_validate_email well_formed_validate_phone
      well_formed_validate_wifi well_formed_validate_contact)

lemmas eval_sanitize_text =
  sanitize_text_def matches_ci_def upperAscii_def asciiLower_def asciiUpper_def trim_def
  isWhiteSpace_def

theorem validators_well_formed_witness:
  "customValidator (no_options\<lparr>maxLength := Some 2000,
        customValidator := Some validate_wifi\<rparr>) = Some validate_wifi \<and>
   (\<forall>v. well_formed (validate_wifi v)) \<and>
   well_formed (validate_text ''MyNet,pass123,wpa2''
     (no_options\<lparr>maxLength := Some 2000, customValidator := Some validate_wifi\<rparr>)) \<and>
   validate_text ''MyNet,pass123,wpa2''
     (no_options\<lparr>maxLength := Some 2000, customValidator := Some validate_wifi\<rparr>) =
     \<lparr>isValid = True, error = None, sanitizedValue = Some ''MyNet,pass123,wpa2''\<rparr> \<and>
   validate_text ''<>''
     (no_options\<lparr>required := Some True, customValidator := Some validate_wifi\<rparr>) =
     \<lparr>isValid = False, error = Some ''This field is required'', sanitizedValue = None\<rparr>"
proof -
  let ?options = "no_options\<lparr>maxLength := Some 2000, customValidator := Some validate_wifi\<rparr>"
  have hyp: "\<forall>cv v. customValidator ?options = Some cv \<longrightarrow> well_formed (cv v)"
    by (simp add: no_options_def well_formed_validate_wifi)
  have eval: "validate_text ''MyNet,pass123,wpa2'' ?options =
     \<lparr>isValid = True, error = None, sanitizedValue = Some ''MyNet,pass123,wpa2''\<rparr>"
    by (simp add: validate_text_def no_options_def truthy_def eval_sanitize_text
        validate_wifi_def sanitize_wifi_def toUpperCase_def validSecurity_def valid_def)
  have eval2: "validate_text ''<>''
     (no_options\<lparr>required := Some True, customValidator := Some validate_wifi\<rparr>) =
     \<lparr>isValid = False, error = Some ''This field is required'', sanitizedValue = None\<rparr>"
    by (simp add: validate_text_def no_options_def eval_sanitize_text invalid_def)
  have cv: "customValidator ?options = Some validate_wifi"
    by (simp add: no_options_def)
  from hyp cv eval eval2 well_formed_validate_wifi
    validators_well_formed [of ?options "''MyNet,pass123,wpa2''" "\<lambda>s. None"]
  show ?thesis by simp
qed

section \<open>Properties of the wifi sanitizer and the payload\<close>

lemma set_trim: "set (trim s) \<subseteq> set s"
proof -
  have "set (trim s) = set (dropWhile isWhiteSpace (rev (dropWhile isWhiteSpace s)))"
    by (simp add: trim_def)
  also have "\<dots> \<subseteq> set (rev (dropWhile isWhiteSpace s))"
    by (meson set_dropWhileD subsetI)
  also have "\<dots> \<subseteq> set s"
    by (auto dest: set_dropWhileD)
  finally show ?thesis .
qed

lemma set_split_on_Union: "(\<Union>p \<in> set (split_on sep s). set p) \<subseteq> set s"
proof (induction s)
  case Nil
  show ?case by simp
next
  case (Cons c cs)
  show ?case
  proof (cases "split_on sep cs")
    case Nil
    then show ?thesis by simp
  next
    case (Cons p ps)
    with Cons.IH have "set p \<subseteq> set cs" and "(\<Union>q \<in> set ps. set q) \<subseteq> set cs"
      by simp_all
    with Cons show ?thesis by auto
  qed
qed

lemma set_split_on: "p \<in> set (split_on sep s) \<Longrightarrow> set p \<subseteq> set s"
  using set_split_on_Union [of sep s] by blast

lemma sanitize_wifi_clean:
  "CHR '';'' \<notin> set (sanitize_wifi input) \<and> CHR 0x22 \<notin> set (sanitize_wifi input)"
  using set_trim [of "filter (\<lambda>c. c \<noteq> CHR '';'' \<and> c \<noteq> CHR 0x22) input"]
  by (auto simp: sanitize_wifi_def)

lemma validate_wifi_valid:
  "isValid (validate_wifi input) \<Longrightarrow>
     validate_wifi input = valid (sanitize_wifi input) \<and>
     3 \<le> length (split_on CHR '','' (sanitize_wifi input))"
  by (simp add: validate_wifi_def Let_def invalid_def split: if_splits)

text \<open>
  Claim C10, as it holds. When \<open>validate.wifi\<close> returns a valid result, its
  \<open>sanitizedValue\<close> is the sanitized input and contains neither \<open>;\<close> nor the double
  quote; it splits on the comma into at least three parts, none of the first three
  contains \<open>;\<close>, and the wifi template applied to the \<open>sanitizedValue\<close> embeds exactly
  these three parts.
\<close>

theorem validate_wifi_sanitized_clean:
  "isValid (validate_wifi input) \<longrightarrow>
     sanitizedValue (validate_wifi input) = Some (sanitize_wifi input) \<and>
     CHR '';'' \<notin> set (sanitize_wifi input) \<and>
     CHR 0x22 \<notin> set (sanitize_wifi input) \<and>
     (\<exists>ssid password security rest.
        split_on CHR '','' (sanitize_wifi input) = ssid # password # security # rest \<and>
        CHR '';'' \<notin> set ssid \<and> CHR '';'' \<notin> set password \<and> CHR '';'' \<notin> set security \<and>
        format_wifi (sanitize_wifi input) =
          ''WIFI:T:'' @ security @ '';S:'' @ ssid @ '';P:'' @ password @ '';;'')"
proof
  assume v: "isValid (validate_wifi input)"
  let ?s = "sanitize_wifi input"
  from validate_wifi_valid [OF v]
  have r: "validate_wifi input = valid ?s" and len: "3 \<le> length (split_on CHR '','' ?s)"
    by simp_all
  from len obtain ssid t1 where p1: "split_on CHR '','' ?s = ssid # t1"
    by (cases "split_on CHR '','' ?s") auto
  with len obtain password t2 where p2: "t1 = password # t2"
    by (cases t1) auto
  with len p1 obtain security rest where p3: "t2 = security # rest"
    by (cases t2) auto
  from p1 p2 p3 have parts: "split_on CHR '','' ?s = ssid # password # security # rest"
    by simp
  have "set p \<subseteq> set ?s" if "p \<in> set (split_on CHR '','' ?s)" for p
    using that by (rule set_split_on)
  with parts have "set ssid \<subseteq> set ?s" "set password \<subseteq> set ?s" "set security \<subseteq> set ?s"
    by simp_all
  with sanitize_wifi_clean [of input]
  have clean: "CHR '';'' \<notin> set ssid \<and> CHR '';'' \<notin> set password \<and> CHR '';'' \<notin> set security"
    by blast
  have fmt: "format_wifi ?s = ''WIFI:T:'' @ security @ '';S:'' @ ssid @ '';P:'' @ password @ '';;''"
    using parts by (simp add: format_wifi_def)
  from r have "sanitizedValue (validate_wifi input) = Some ?s"
    by (simp add: valid_def)
  with sanitize_wifi_clean [of input] parts clean fmt
  show "sanitizedValue (validate_wifi input) = Some (sanitize_wifi input) \<and>
     CHR '';'' \<notin> set (sanitize_wifi input) \<and>
     CHR 0x22 \<notin> set (sanitize_wifi input) \<and>
     (\<exists>ssid password security rest.
        split_on CHR '','' (sanitize_wifi input) = ssid # password # security # rest \<and>
        CHR '';'' \<notin> set ssid \<and> CHR '';'' \<notin> set password \<and> CHR '';'' \<notin> set security \<and>
        format_wifi (sanitize_wifi input) =
          ''WIFI:T:'' @ security @ '';S:'' @ ssid @ '';P:'' @ password @ '';;'')"
    by blast
qed

theorem validate_wifi_sanitized_clean_witness:
  "isValid (validate_wifi ''a;b,pw,WPA'') \<and>
   sanitizedValue (validate_wifi ''a;b,pw,WPA'') = Some ''ab,pw,WPA'' \<and>
   format_wifi ''ab,pw,WPA'' = ''WIFI:T:WPA;S:ab;P:pw;;''"
proof -
  have v: "validate_wifi ''a;b,pw,WPA'' = valid ''ab,pw,WPA''"
    by (simp add: eval_validate_wifi)
  have s: "sanitize_wifi ''a;b,pw,WPA'' = ''ab,pw,WPA''"
    by (simp add: sanitize_wifi_def trim_def isWhiteSpace_def)
  from v s validate_wifi_sanitized_clean [of "''a;b,pw,WPA''"]
  show ?thesis by (simp add: valid_def)
qed

text \<open>
  Claim C10 as stated fails for the payload the program builds. The input
  \<open>a;b,pw,WPA\<close> passes \<open>validate.wifi\<close> (the sanitizer drops the \<open>;\<close> before the
  checks), so \<open>debouncedValidate\<close> leaves no validation error; \<open>generateQR\<close> then
  formats the trimmed text of the input field, not the \<open>sanitizedValue\<close>, and the
  network name embedded in the payload is \<open>a;b\<close>.
\<close>

theorem wifi_payload_keeps_semicolon:
  "isValid (validate_wifi ''a;b,pw,WPA'') \<and>
   debouncedValidate rejectURL wifiTemplate ''a;b,pw,WPA'' = None \<and>
   generateQR_content wifiTemplate None ''a;b,pw,WPA'' = Inr ''WIFI:T:WPA;S:a;b;P:pw;;'' \<and>
   split_on CHR '','' (trim ''a;b,pw,WPA'') ! 0 = ''a;b'' \<and>
   CHR '';'' \<in> set (split_on CHR '','' (trim ''a;b,pw,WPA'') ! 0)"
proof -
  have v: "validate_wifi ''a;b,pw,WPA'' = valid ''ab,pw,WPA''"
    by (simp add: eval_validate_wifi)
  have t: "sanitize_text ''a;b,pw,WPA'' = ''a;b,pw,WPA''"
    by (simp add: sanitize_text_def matches_ci_def upperAscii_def asciiLower_def asciiUpper_def
        trim_def isWhiteSpace_def)
  have tr: "trim ''a;b,pw,WPA'' = ''a;b,pw,WPA''"
    by (simp add: trim_def isWhiteSpace_def)
  have d: "debouncedValidate rejectURL wifiTemplate ''a;b,pw,WPA'' = None"
    by (simp add: debouncedValidate_def tr validate_text_def t no_options_def truthy_def
        templateValidator_def wifiTemplate_def qrTemplates_def v valid_def)
  have g: "generateQR_content wifiTemplate None ''a;b,pw,WPA'' = Inr ''WIFI:T:WPA;S:a;b;P:pw;;''"
    by (simp add: generateQR_content_def tr wifiTemplate_def qrTemplates_def format_wifi_def)
  from v tr d g show ?thesis by (simp add: valid_def)
qed

section \<open>Properties of the diagnostics\<close>

lemma length_botHeuristics: "length (botHeuristics e ua) = 5"
  by (simp add: botHeuristics_def)

lemmas eval_ci = matches_ci_def upperAscii_def asciiLower_def asciiUpper_def

lemma userAgent_botEnv: "userAgent botEnv = Returns ''Googlebot/2.1''"
  by (simp add: botEnv_def)

lemma botHeuristics_botEnv:
  "botHeuristics botEnv ''Googlebot/2.1'' = [True, False, True, True, False]"
proof -
  have "isBot (toLowerCase ''Googlebot/2.1'')"
    by (simp add: isBot_def toLowerCase_def lowerAscii_def eval_ci)
  then show ?thesis
    by (simp add: botHeuristics_def botEnv_def)
qed

lemma checkBotDetection_botEnv:
  "checkBotDetection botEnv =
     Returns (result ''Bot Detection'' skipped ''Uncertain detection result'')"
  by (simp add: checkBotDetection_def userAgent_botEnv botHeuristics_botEnv humanScore_def
      botVerdict_def)

text \<open>
  Claim C5. The bot detection has five heuristics of equal weight. With \<open>k\<close> of them
  passing the score is \<open>k / 5\<close>, and the status of the result is \<open>passed\<close> when the score
  is at least \<open>0.7\<close>, \<open>skipped\<close> when it is at least \<open>0.4\<close> and below \<open>0.7\<close>, \<open>failed\<close> when
  it is below \<open>0.4\<close>: \<open>passed\<close> for four or five, \<open>skipped\<close> for two or three, \<open>failed\<close>
  for none or one. Exactly three passing gives \<open>skipped\<close>, not \<open>passed\<close> or \<open>failed\<close>.
  The hypothesis is that reading the user agent, which the function does not guard,
  returns.
\<close>

theorem botDetection_thresholds:
  "userAgent e = Returns ua \<longrightarrow>
     (let k = length (filter id (botHeuristics e ua)) in
      length (botHeuristics e ua) = 5 \<and>
      humanScore (botHeuristics e ua) = real k / 5 \<and>
      (\<exists>r. checkBotDetection e = Returns r \<and> name r = ''Bot Detection'' \<and>
         (status r = passed \<longleftrightarrow> real k / 5 \<ge> 7 / 10) \<and>
         (status r = skipped \<longleftrightarrow> 4 / 10 \<le> real k / 5 \<and> real k / 5 < 7 / 10) \<and>
         (status r = failed \<longleftrightarrow> real k / 5 < 4 / 10) \<and>
         (status r = passed \<longleftrightarrow> 4 \<le> k) \<and>
         (status r = skipped \<longleftrightarrow> k = 2 \<or> k = 3) \<and>
         (status r = failed \<longleftrightarrow> k \<le> 1) \<and>
         (k = 3 \<longrightarrow> status r = skipped \<and> status r \<noteq> passed \<and> status r \<noteq> failed)))"
proof
  assume ua: "userAgent e = Returns ua"
  define k where "k = length (filter id (botHeuristics e ua))"
  have score: "humanScore (botHeuristics e ua) = real k / 5"
    by (simp add: humanScore_def length_botHeuristics k_def)
  from ua have r: "checkBotDetection e = Returns (botVerdict (real k / 5))"
    by (simp add: checkBotDetection_def score)
  have n: "name (botVerdict x) = ''Bot Detection''" for x
    by (simp add: botVerdict_def result_def)
  have p: "status (botVerdict x) = passed \<longleftrightarrow> x \<ge> 7 / 10" for x
    by (simp add: botVerdict_def result_def)
  have s: "status (botVerdict x) = skipped \<longleftrightarrow> 4 / 10 \<le> x \<and> x < 7 / 10" for x
    by (auto simp: botVerdict_def result_def)
  have f: "status (botVerdict x) = failed \<longleftrightarrow> x < 4 / 10" for x
    by (auto simp: botVerdict_def result_def)
  have three: "status (botVerdict (real k / 5)) = skipped" if "k = 3"
    using that by (simp add: s)
  have "(7 / 10 \<le> real k / 5) = (real 7 \<le> real (2 * k))"
    by (simp add: field_simps)
  also have "\<dots> = (7 \<le> 2 * k)"
    by (rule of_nat_le_iff)
  also have "\<dots> = (4 \<le> k)"
    by arith
  finally have hi: "(7 / 10 \<le> real k / 5) = (4 \<le> k)" .
  have "(real k / 5 < 4 / 10) = (real k < real 2)"
    by (simp add: field_simps)
  also have "\<dots> = (k < 2)"
    by (rule of_nat_less_iff)
  also have "\<dots> = (k \<le> 1)"
    by arith
  finally have lo: "(real k / 5 < 4 / 10) = (k \<le> 1)" .
  have pn: "status (botVerdict (real k / 5)) = passed \<longleftrightarrow> 4 \<le> k"
    using p [of "real k / 5"] hi by simp
  have fn: "status (botVerdict (real k / 5)) = failed \<longleftrightarrow> k \<le> 1"
    using f [of "real k / 5"] lo by simp
  have sn: "status (botVerdict (real k / 5)) = skipped \<longleftrightarrow> k = 2 \<or> k = 3"
  proof -
    have "status (botVerdict (real k / 5)) = skipped \<longleftrightarrow> \<not> k \<le> 1 \<and> \<not> 4 \<le> k"
      using s [of "real k / 5"] hi lo by auto
    then show ?thesis by arith
  qed
  have three': "k = 3 \<longrightarrow> status (botVerdict (real k / 5)) = skipped \<and>
      status (botVerdict (real k / 5)) \<noteq> passed \<and> status (botVerdict (real k / 5)) \<noteq> failed"
    using three by simp
  from r n [of "real k / 5"] p [of "real k / 5"] s [of "real k / 5"] f [of "real k / 5"]
    three' length_botHeuristics [of e ua] score pn sn fn
  show "let k = length (filter id (botHeuristics e ua)) in
      length (botHeuristics e ua) = 5 \<and>
      humanScore (botHeuristics e ua) = real k / 5 \<and>
      (\<exists>r. checkBotDetection e = Returns r \<and> name r = ''Bot Detection'' \<and>
         (status r = passed \<longleftrightarrow> real k / 5 \<ge> 7 / 10) \<and>
         (status r = skipped \<longleftrightarrow> 4 / 10 \<le> real k / 5 \<and> real k / 5 < 7 / 10) \<and>
         (status r = failed \<longleftrightarrow> real k / 5 < 4 / 10) \<and>
         (status r = passed \<longleftrightarrow> 4 \<le> k) \<and>
         (status r = skipped \<longleftrightarrow> k = 2 \<or> k = 3) \<and>
         (status r = failed \<longleftrightarrow> k \<le> 1) \<and>
         (k = 3 \<longrightarrow> status r = skipped \<and> status r \<noteq> passed \<and> status r \<noteq> failed))"
    unfolding Let_def k_def [symmetric] by blast
qed

theorem botDetection_thresholds_witness:
  "userAgent botEnv = Returns ''Googlebot/2.1'' \<and>
   botHeuristics botEnv ''Googlebot/2.1'' = [True, False, True, True, False] \<and>
   length (filter id (botHeuristics botEnv ''Googlebot/2.1'')) = 3 \<and>
   checkBotDetection botEnv =
     Returns (result ''Bot Detection'' skipped ''Uncertain detection result'')"
  using botDetection_thresholds [of botEnv "''Googlebot/2.1''"]
    userAgent_botEnv botHeuristics_botEnv checkBotDetection_botEnv
  by simp

lemma run_checks_eq:
  "i + length cs \<le> length prev \<Longrightarrow>
     run_checks e cs i prev = take i prev @ map (settle e) cs @ drop (i + length cs) prev"
proof (induction cs arbitrary: i prev)
  case Nil
  then show ?case by simp
next
  case (Cons c cs)
  let ?prev = "prev[i := settle e c]"
  from Cons.prems have i: "i < length prev" and le: "Suc i + length cs \<le> length ?prev"
    by simp_all
  have "run_checks e (c # cs) i prev = run_checks e cs (Suc i) ?prev"
    by simp
  also have "\<dots> = take (Suc i) ?prev @ map (settle e) cs @ drop (Suc i + length cs) ?prev"
    using le by (rule Cons.IH)
  also have "take (Suc i) ?prev = take i prev @ [settle e c]"
    using i by (simp add: take_Suc_conv_app_nth)
  also have "drop (Suc i + length cs) ?prev = drop (i + length (c # cs)) prev"
    by simp
  finally show ?case by simp
qed

lemma status_result [simp]: "status (result n s m) = s" "name (result n s m) = n"
  by (simp_all add: result_def)

lemma status_result_details [simp]:
  "status (result_details n s m d) = s" "name (result_details n s m d) = n"
  by (simp_all add: result_details_def)

lemma settle_checkWebRTC:
  "settled (settle e (n, checkWebRTC)) \<and> name (settle e (n, checkWebRTC)) = ''WebRTC Support''"
  by (simp add: settle_def checkWebRTC_def settled_def split: outcome.splits)

lemma settle_checkWebGL:
  "settled (settle e (n, checkWebGL)) \<and> name (settle e (n, checkWebGL)) = ''WebGL Support''"
  by (simp add: settle_def checkWebGL_def settled_def Let_def split: outcome.splits bool.splits)

lemma settle_checkServiceWorkers:
  "settled (settle e (n, checkServiceWorkers)) \<and>
   name (settle e (n, checkServiceWorkers)) = ''Service Workers''"
  by (simp add: settle_def checkServiceWorkers_def settled_def)

lemma settle_checkIndexedDB:
  "settled (settle e (n, checkIndexedDB)) \<and>
   name (settle e (n, checkIndexedDB)) = ''IndexedDB Support''"
  by (simp add: settle_def checkIndexedDB_def settled_def)

lemma settle_checkAudioContext:
  "settled (settle e (n, checkAudioContext)) \<and>
   name (settle e (n, checkAudioContext)) = ''Audio Context''"
  by (simp add: settle_def checkAudioContext_def settled_def split: option.splits outcome.splits)

lemma settle_checkCameraPermissions:
  "settled (settle e (n, checkCameraPermissions)) \<and>
   name (settle e (n, checkCameraPermissions)) = ''Camera Permissions''"
  by (simp add: settle_def checkCameraPermissions_def settled_def split: outcome.splits)

lemma settle_checkMicrophonePermissions:
  "settled (settle e (n, checkMicrophonePermissions)) \<and>
   name (settle e (n, checkMicrophonePermissions)) = ''Microphone Permissions''"
  by (simp add: settle_def checkMicrophonePermissions_def settled_def split: outcome.splits)

lemma settle_checkNotificationPermissions:
  "settled (settle e (n, checkNotificationPermissions)) \<and>
   name (settle e (n, checkNotificationPermissions)) = ''Notification Permissions''"
  by (simp add: settle_def checkNotificationPermissions_def settled_def split: outcome.splits)

lemma settle_checkBotDetection:
  "settled (settle e (''Bot Detection'', checkBotDetection)) \<and>
   name (settle e (''Bot Detection'', checkBotDetection)) = ''Bot Detection''"
  by (simp add: settle_def checkBotDetection_def settled_def botVerdict_def
      split: outcome.splits)

lemma settle_checks:
  "list_all settled (map (settle e) checks) \<and> map name (map (settle e) checks) = map fst checks"
  using settle_checkWebRTC [of e] settle_checkWebGL [of e] settle_checkServiceWorkers [of e]
    settle_checkIndexedDB [of e] settle_checkAudioContext [of e]
    settle_checkCameraPermissions [of e] settle_checkMicrophonePermissions [of e]
    settle_checkNotificationPermissions [of e] settle_checkBotDetection [of e]
  by (simp add: checks_def)

lemma length_checks: "length checks = 9"
  by (simp add: checks_def)

lemma results_runDiagnostics: "results (runDiagnostics e st) = map (settle e) checks"
proof -
  have "results (runDiagnostics e st) = run_checks e checks 0 (results (diag_begin st))"
    by (simp add: runDiagnostics_def diag_end_def diag_loop_def)
  also have "\<dots> = take 0 (results (diag_begin st)) @ map (settle e) checks @
      drop (0 + length checks) (results (diag_begin st))"
    by (rule run_checks_eq) (simp add: diag_begin_def)
  also have "\<dots> = map (settle e) checks"
    by (simp add: diag_begin_def)
  finally show ?thesis .
qed

text \<open>
  Claim C6. A run of the diagnostics starts by setting the results to nine entries,
  one for each registered check and all \<open>pending\<close>, before any check runs. When the run
  is complete the results are nine, one for each registered check in order, each
  \<open>passed\<close>, \<open>failed\<close> or \<open>skipped\<close>, and none is \<open>pending\<close>.
\<close>

theorem runDiagnostics_all_settled:
  "length checks = 9 \<and>
   results (diag_begin st) = map (\<lambda>check. result (fst check) pending ''Checking...'') checks \<and>
   length (results (diag_begin st)) = 9 \<and>
   (\<forall>r \<in> set (results (diag_begin st)). status r = pending) \<and>
   length (results (runDiagnostics e st)) = 9 \<and>
   map name (results (runDiagnostics e st)) = map fst checks \<and>
   (\<forall>r \<in> set (results (runDiagnostics e st)).
      status r = passed \<or> status r = failed \<or> status r = skipped) \<and>
   countStatus pending (results (runDiagnostics e st)) = 0 \<and>
   countStatus passed (results (runDiagnostics e st)) +
     countStatus failed (results (runDiagnostics e st)) +
     countStatus skipped (results (runDiagnostics e st)) = 9 \<and>
   isComplete (runDiagnostics e st) \<and> \<not> isRunning (runDiagnostics e st)"
proof -
  let ?rs = "results (runDiagnostics e st)"
  have start: "results (diag_begin st) =
      map (\<lambda>check. result (fst check) pending ''Checking...'') checks"
    by (simp add: diag_begin_def)
  then have start_len: "length (results (diag_begin st)) = 9"
    and start_pending: "\<forall>r \<in> set (results (diag_begin st)). status r = pending"
    by (auto simp: length_checks)
  have len: "length ?rs = 9"
    by (simp add: results_runDiagnostics length_checks)
  from settle_checks [of e] have every: "list_all settled ?rs" and names: "map name ?rs = map fst checks"
    by (simp_all add: results_runDiagnostics)
  from every have terminal: "\<forall>r \<in> set ?rs. status r = passed \<or> status r = failed \<or> status r = skipped"
    by (simp add: list_all_iff settled_def)
  then have none: "countStatus pending ?rs = 0"
    by (auto simp: countStatus_def filter_empty_conv)
  have sum: "countStatus passed rs + countStatus failed rs + countStatus skipped rs = length rs"
    if "\<forall>r \<in> set rs. status r = passed \<or> status r = failed \<or> status r = skipped" for rs
    using that by (induction rs) (auto simp: countStatus_def)
  from sum [OF terminal] len
  have total: "countStatus passed ?rs + countStatus failed ?rs + countStatus skipped ?rs = 9"
    by simp
  have flags: "isComplete (runDiagnostics e st) \<and> \<not> isRunning (runDiagnostics e st)"
    by (simp add: runDiagnostics_def diag_end_def)
  from length_checks start start_len start_pending len names terminal none total flags
  show ?thesis by blast
qed

lemmas eval_checks =
  settle_def checkWebRTC_def checkWebGL_def checkServiceWorkers_def checkIndexedDB_def
  checkAudioContext_def checkCameraPermissions_def checkMicrophonePermissions_def
  checkNotificationPermissions_def

theorem runDiagnostics_all_settled_witness:
  "map status (results (diag_begin idle)) =
     [pending, pending, pending, pending, pending, pending, pending, pending, pending] \<and>
   map status (results (runDiagnostics botEnv idle)) =
     [passed, passed, passed, failed, failed, skipped, passed, passed, skipped] \<and>
   map status (results (runDiagnostics (botEnv\<lparr>userAgent := Throws NonError\<rparr>) idle)) =
     [passed, passed, passed, failed, failed, skipped, passed, passed, failed] \<and>
   countStatus pending (results (runDiagnostics botEnv idle)) = 0"
proof -
  have b: "map status (results (diag_begin idle)) =
     [pending, pending, pending, pending, pending, pending, pending, pending, pending]"
    by (simp add: diag_begin_def checks_def)
  note bot = checkBotDetection_botEnv
  have r: "map status (results (runDiagnostics botEnv idle)) =
     [passed, passed, passed, failed, failed, skipped, passed, passed, skipped]"
    by (simp add: results_runDiagnostics checks_def eval_checks bot) (simp add: botEnv_def)
  have t: "map status (results (runDiagnostics (botEnv\<lparr>userAgent := Throws NonError\<rparr>) idle)) =
     [passed, passed, passed, failed, failed, skipped, passed, passed, failed]"
    by (simp add: results_runDiagnostics checks_def eval_checks checkBotDetection_def)
       (simp add: botEnv_def)
  from b r t runDiagnostics_all_settled [of idle botEnv]
  show ?thesis by simp
qed

section \<open>Properties of the text sanitizer\<close>

text \<open>
  One application of \<open>sanitize.text\<close> can leave one of the two protocol words in its
  result. Applying it again changes the result exactly then.
\<close>

lemma length_remove_ci: "length (remove_ci p s) \<le> length s"
  by (induction p s rule: remove_ci.induct) (auto simp: le_SucI intro: le_trans)

lemma set_remove_ci: "set (remove_ci p s) \<subseteq> set s"
proof (induction p s rule: remove_ci.induct)
  case (1 p)
  show ?case by simp
next
  case (2 p c cs)
  show ?case
  proof (cases "p \<noteq> [] \<and> matches_ci p (c # cs)")
    case True
    with 2 have "set (remove_ci p (drop (length p) (c # cs))) \<subseteq> set (drop (length p) (c # cs))"
      by simp
    also have "\<dots> \<subseteq> set (c # cs)"
      by (rule set_drop_subset)
    finally show ?thesis using True by simp
  next
    case False
    with 2 show ?thesis by auto
  qed
qed

lemma remove_ci_absent: "\<not> contains_ci p s \<Longrightarrow> remove_ci p s = s"
  by (induction s) auto

lemma remove_ci_shorter: "p \<noteq> [] \<Longrightarrow> contains_ci p s \<Longrightarrow> length (remove_ci p s) < length s"
proof (induction s)
  case Nil
  then show ?case by (simp add: matches_ci_def)
next
  case (Cons c cs)
  show ?case
  proof (cases "matches_ci p (c # cs)")
    case True
    have "length (remove_ci p (drop (length p) (c # cs))) \<le> length (drop (length p) (c # cs))"
      by (rule length_remove_ci)
    also have "\<dots> < length (c # cs)"
      using Cons.prems(1) by simp
    finally show ?thesis using True Cons.prems(1) by simp
  next
    case False
    with Cons show ?thesis by simp
  qed
qed

lemma trimmed_front: "dropWhile P (rev (dropWhile P (rev (dropWhile P s)))) = rev (dropWhile P (rev (dropWhile P s)))"
proof -
  let ?a = "dropWhile P s"
  let ?b = "rev (dropWhile P (rev ?a))"
  have split: "?a = ?b @ rev (takeWhile P (rev ?a))"
    by (metis rev_append rev_rev_ident takeWhile_dropWhile_id)
  show ?thesis
  proof (cases "?b")
    case Nil
    then have e: "dropWhile P (rev ?a) = []"
      by (simp only: rev_is_Nil_conv)
    show ?thesis unfolding e by simp
  next
    case (Cons x xs)
    with split have "hd ?a = x" and "?a \<noteq> []"
      by (metis append_Cons list.sel(1), metis append_is_Nil_conv list.distinct(1))
    then have "\<not> P x"
      using hd_dropWhile by metis
    with Cons show ?thesis by simp
  qed
qed

lemma trim_idem: "trim (trim s) = trim s"
  by (simp add: trim_def trimmed_front)

lemma length_trim: "length (trim s) \<le> length s"
proof -
  have "length (trim s) = length (dropWhile isWhiteSpace (rev (dropWhile isWhiteSpace s)))"
    by (simp add: trim_def)
  also have "\<dots> \<le> length (rev (dropWhile isWhiteSpace s))"
    by (rule length_dropWhile_le)
  also have "\<dots> = length (dropWhile isWhiteSpace s)"
    by simp
  also have "\<dots> \<le> length s"
    by (rule length_dropWhile_le)
  finally show ?thesis .
qed


lemma sanitize_text_idempotent_iff:
  "sanitize_text (sanitize_text x) = sanitize_text x \<longleftrightarrow>
     \<not> contains_ci ''javascript:'' (sanitize_text x) \<and> \<not> contains_ci ''data:'' (sanitize_text x)"
proof -
  let ?keep = "\<lambda>c. c \<noteq> CHR ''<'' \<and> c \<noteq> CHR ''>''"
  let ?y = "sanitize_text x"
  let ?z = "remove_ci ''data:'' (remove_ci ''javascript:'' (filter ?keep x))"
  have y: "?y = trim ?z"
    by (simp add: sanitize_text_def)
  have "set ?y \<subseteq> set (filter ?keep x)"
    unfolding y using set_trim set_remove_ci by (meson subset_trans)
  then have "\<forall>c \<in> set ?y. ?keep c"
    by auto
  then have f: "filter ?keep ?y = ?y"
    by (simp only: filter_id_conv)
  have trimmed: "trim ?y = ?y"
    unfolding y by (rule trim_idem)
  have twice: "sanitize_text ?y = trim (remove_ci ''data:'' (remove_ci ''javascript:'' ?y))"
    using f by (simp add: sanitize_text_def)
  show ?thesis
  proof (cases "contains_ci ''javascript:'' ?y")
    case True
    then have "length (remove_ci ''javascript:'' ?y) < length ?y"
      by (intro remove_ci_shorter) simp_all
    moreover have "length (sanitize_text ?y) \<le> length (remove_ci ''javascript:'' ?y)"
      unfolding twice using length_trim length_remove_ci by (meson le_trans)
    ultimately have "length (sanitize_text ?y) < length ?y"
      by simp
    then have "sanitize_text ?y \<noteq> ?y"
      by auto
    with True show ?thesis by simp
  next
    case no_js: False
    then have js: "remove_ci ''javascript:'' ?y = ?y"
      by (rule remove_ci_absent)
    show ?thesis
    proof (cases "contains_ci ''data:'' ?y")
      case True
      then have "length (remove_ci ''data:'' ?y) < length ?y"
        by (intro remove_ci_shorter) simp_all
      moreover have "length (sanitize_text ?y) \<le> length (remove_ci ''data:'' ?y)"
        unfolding twice js by (rule length_trim)
      ultimately have "length (sanitize_text ?y) < length ?y"
        by simp
      then have "sanitize_text ?y \<noteq> ?y"
        by auto
      with True show ?thesis by simp
    next
      case False
      then have "remove_ci ''data:'' ?y = ?y"
        by (rule remove_ci_absent)
      with js twice trimmed have "sanitize_text ?y = ?y"
        by simp
      with no_js False show ?thesis by simp
    qed
  qed
qed

text \<open>
  Claim C1 says that \<open>sanitize.text\<close> applied twice is \<open>sanitize.text\<close> applied once.
  Each of the two protocol words is deleted in a single pass, and a deletion can join
  the text on its two sides into the word again: from \<open>javajavascript:script:\<close> the
  first application leaves \<open>javascript:\<close>, the word it is written to remove, and
  the second application deletes it. By \<open>sanitize_text_idempotent_iff\<close> the two
  applications agree on every input for which the first leaves neither word.
\<close>

theorem sanitize_text_twice_differs:
  "sanitize_text ''javajavascript:script:'' = ''javascript:'' \<and>
   sanitize_text (sanitize_text ''javajavascript:script:'') = [] \<and>
   sanitize_text (sanitize_text ''javajavascript:script:'') \<noteq>
     sanitize_text ''javajavascript:script:''"
proof -
  have once: "sanitize_text ''javajavascript:script:'' = ''javascript:''"
    by (simp add: eval_sanitize_text)
  have twice: "sanitize_text ''javascript:'' = []"
    by (simp add: eval_sanitize_text)
  from once twice show ?thesis by simp
qed

end
